theory Spec2Isabelle
  imports Main "HOL-Library.Sublist" "HOL-Library.AList" "HOL-Library.Multiset"
begin

section \<open>Data model of \<^verbatim>\<open>script/backup_script.py\<close>\<close>

text \<open>
  The script walks a Git history, asks Git for the files changed by each commit, and writes
  the content of every such file, as of that commit, below
  \<^verbatim>\<open>backup_dir/<hexsha>/<file>\<close>. Everything the script does goes through GitPython,
  \<^verbatim>\<open>os\<close>, \<^verbatim>\<open>aiofiles\<close>, \<^verbatim>\<open>datetime\<close> and \<^verbatim>\<open>asyncio\<close>. These collaborators are
  modelled as follows.
  \<^item> Strings are \<open>string\<close>; commit identifiers and paths are strings.
  \<^item> An exception is a value of \<open>exn\<close> carrying \<^verbatim>\<open>str(e)\<close>; a call that may raise returns
    \<open>exn + 'a\<close>, with \<open>Inl\<close> for the exception.
  \<^item> The repository is a record of the answers Git gives (\<open>repo\<close>).
  \<^item> The file system is a set of directories and a map from paths to file contents;
    failures of the operating system are answers of an oracle (\<open>os_env\<close>).
  \<^item> The list \<^verbatim>\<open>failed_files\<close> and the file system are the mutable state, passed explicitly.
  \<^item> Concurrency is modelled by an explicit completion order (see the section on the pipeline).
\<close>

type_synonym sha = string
type_synonym path = string

datatype exn =
    GitCommandError string
  | BackupError string
  | ValidationError string
  | ValueError string
  | OSError string
  | InvalidGitRepositoryError string
  | OtherException string

fun str :: "exn \<Rightarrow> string" where
  "str (GitCommandError m) = m"
| "str (BackupError m) = m"
| "str (ValidationError m) = m"
| "str (ValueError m) = m"
| "str (OSError m) = m"
| "str (InvalidGitRepositoryError m) = m"
| "str (OtherException m) = m"

record commit =
  hexsha :: sha
  committed_date :: int

text \<open>
  \<open>iter_commits r branch\<close> is \<^verbatim>\<open>list(repo.iter_commits(branch))\<close>;
  \<open>show_name_only r sha\<close> is \<^verbatim>\<open>repo.git.show('--pretty=', '--name-only', sha).splitlines()\<close>;
  \<open>show r arg\<close> is \<^verbatim>\<open>repo.git.show(arg)\<close> for a single argument \<^verbatim>\<open><hexsha>:<file>\<close>;
  \<open>commit_of r sha\<close> is \<^verbatim>\<open>repo.commit(sha)\<close>;
  \<open>active_branch r\<close> is \<^verbatim>\<open>repo.active_branch.name\<close>.
\<close>

record repo =
  iter_commits :: "string \<Rightarrow> commit list"
  show_name_only :: "sha \<Rightarrow> exn + path list"
  "show" :: "string \<Rightarrow> exn + string"
  commit_of :: "sha \<Rightarrow> exn + commit"
  active_branch :: "exn + string"

subsection \<open>Paths (\<^verbatim>\<open>posixpath\<close>)\<close>

text \<open>
  \<^verbatim>\<open>os.path.join(a, b)\<close>: an absolute \<open>b\<close> replaces \<open>a\<close>; otherwise the two are
  concatenated, with a separator unless \<open>a\<close> is empty or already ends with one.
\<close>

definition join :: "path \<Rightarrow> path \<Rightarrow> path" where
  "join a b =
     (if b \<noteq> [] \<and> hd b = CHR ''/'' then b
      else if a = [] \<or> last a = CHR ''/'' then a @ b
      else a @ ''/'' @ b)"

text \<open>
  \<^verbatim>\<open>os.path.dirname(p)\<close>: the text up to and including the last separator, with trailing
  separators stripped unless it consists of separators only.
\<close>

definition dirname :: "path \<Rightarrow> path" where
  "dirname p =
     (let head = rev (dropWhile (\<lambda>c. c \<noteq> CHR ''/'') (rev p))
      in if head \<noteq> [] \<and> \<not> list_all (\<lambda>c. c = CHR ''/'') head
         then rev (dropWhile (\<lambda>c. c = CHR ''/'') (rev head))
         else head)"

text \<open>The path itself and every directory above it, as \<^verbatim>\<open>os.makedirs\<close> visits them.\<close>

fun ancestors :: "path \<Rightarrow> path list" where
  "ancestors p =
     (if dirname p \<noteq> [] \<and> length (dirname p) < length p
      then p # ancestors (dirname p) else [p])"

declare ancestors.simps [simp del]

subsection \<open>File system\<close>

record filesystem =
  dirs :: "path set"
  files :: "path \<rightharpoonup> string"

text \<open>
  The oracle of operating-system failures. \<open>makedirs_fault p = Some m\<close>: creating directory
  \<open>p\<close> raises an error with message \<open>m\<close>. \<open>write_fault p c\<close> says how writing content
  \<open>c\<close> to \<open>p\<close> goes: it succeeds, opening fails, or writing fails after the file was
  opened, with the text that had reached the file by then.
\<close>

datatype write_outcome = Written | OpenFails string | WriteFails string string

record os_env =
  makedirs_fault :: "path \<Rightarrow> string option"
  write_fault :: "path \<Rightarrow> string \<Rightarrow> write_outcome"

text \<open>
  \<^verbatim>\<open>os.makedirs(p, exist_ok=True)\<close>: the empty path is rejected; on success \<open>p\<close> and all
  directories above it exist.
\<close>

definition makedirs :: "os_env \<Rightarrow> path \<Rightarrow> filesystem \<Rightarrow> exn + filesystem" where
  "makedirs os p fs =
     (if p = [] then Inl (OSError ''No such file or directory'')
      else case makedirs_fault os p of
          Some m \<Rightarrow> Inl (OSError m)
        | None \<Rightarrow> Inr (fs\<lparr>dirs := dirs fs \<union> set (ancestors p)\<rparr>))"

text \<open>
  \<^verbatim>\<open>
  async def write_file_content(file_path, content):
      async with aiofiles.open(file_path, mode='w', encoding='utf-8') as f:
          await f.write(content)
  \<close>
  Opening with mode \<^verbatim>\<open>'w'\<close> needs the parent directory and creates or truncates the file
  before anything is written.
\<close>

definition write_file_content ::
    "os_env \<Rightarrow> path \<Rightarrow> string \<Rightarrow> filesystem \<Rightarrow> (exn + unit) \<times> filesystem" where
  "write_file_content os file_path content fs =
     (if dirname file_path \<noteq> [] \<and> dirname file_path \<notin> dirs fs
      then (Inl (OSError ''No such file or directory''), fs)
      else case write_fault os file_path content of
          OpenFails m \<Rightarrow> (Inl (OSError m), fs)
        | WriteFails m part \<Rightarrow> (Inl (OSError m), fs\<lparr>files := (files fs)(file_path \<mapsto> part)\<rparr>)
        | Written \<Rightarrow> (Inr (), fs\<lparr>files := (files fs)(file_path \<mapsto> content)\<rparr>))"

subsection \<open>The per-file unit\<close>

record state =
  fs :: filesystem
  failed_files :: "(sha \<times> string) list"

text \<open>
  \<^verbatim>\<open>
  async def read_file_content(repo, commit, file):
      loop = asyncio.get_event_loop()
      return await loop.run_in_executor(None, repo.git.show, f'{commit.hexsha}:{file}')
  \<close>
\<close>

definition read_file_content :: "repo \<Rightarrow> commit \<Rightarrow> path \<Rightarrow> exn + string" where
  "read_file_content r c file = show r (hexsha c @ '':'' @ file)"

text \<open>
  The two handlers of \<^verbatim>\<open>process_file\<close>. A \<^verbatim>\<open>GitCommandError\<close> whose text contains
  \<^verbatim>\<open>does not exist in\<close> is logged as a warning and swallowed; every other exception appends
  \<^verbatim>\<open>(commit.hexsha, file)\<close> to \<^verbatim>\<open>failed_files\<close> and then raises \<^verbatim>\<open>BackupError\<close>.
\<close>

definition is_deletion :: "exn \<Rightarrow> bool" where
  "is_deletion e =
     (case e of GitCommandError m \<Rightarrow> sublist ''does not exist in'' m | _ \<Rightarrow> False)"

definition handle_exn :: "commit \<Rightarrow> path \<Rightarrow> exn \<Rightarrow> state \<Rightarrow> (exn + unit) \<times> state" where
  "handle_exn c file e s =
     (if is_deletion e then (Inr (), s)
      else (Inl (BackupError (''Error processing file '' @ file @ '': '' @ str e)),
            s\<lparr>failed_files := failed_files s @ [(hexsha c, file)]\<rparr>))"

text \<open>
  \<^verbatim>\<open>
  async def process_file(repo, commit, file, commit_backup_dir, failed_files):
      try:
          file_content = await read_file_content(repo, commit, file)
          file_path = os.path.join(commit_backup_dir, file)
          os.makedirs(os.path.dirname(file_path), exist_ok=True)
          await write_file_content(file_path, file_content)
      except git.exc.GitCommandError as e:
          if 'does not exist in' in str(e): logger.warning(...)
          else: failed_files.append((commit.hexsha, file)); raise BackupError(...) from e
      except Exception as e:
          failed_files.append((commit.hexsha, file)); raise BackupError(...) from e
  \<close>
\<close>

definition process_file ::
    "os_env \<Rightarrow> repo \<Rightarrow> commit \<Rightarrow> path \<Rightarrow> path \<Rightarrow> state \<Rightarrow> (exn + unit) \<times> state" where
  "process_file os r c file commit_backup_dir s =
     (case read_file_content r c file of
        Inl e \<Rightarrow> handle_exn c file e s
      | Inr file_content \<Rightarrow>
          let file_path = join commit_backup_dir file in
          (case makedirs os (dirname file_path) (fs s) of
             Inl e \<Rightarrow> handle_exn c file e s
           | Inr fs1 \<Rightarrow>
               (case write_file_content os file_path file_content fs1 of
                  (Inl e, fs2) \<Rightarrow> handle_exn c file e (s\<lparr>fs := fs2\<rparr>)
                | (Inr u, fs2) \<Rightarrow> (Inr (), s\<lparr>fs := fs2\<rparr>))))"

section \<open>Selecting commits\<close>

text \<open>
  A naive \<^verbatim>\<open>datetime\<close> is the number of seconds from 1970-01-01 00:00:00 on the local
  calendar; Python compares naive datetimes by their position on that calendar. The
  library calls are answers of \<open>py_env\<close>: \<open>strptime py s\<close> is
  \<^verbatim>\<open>datetime.strptime(s, '%d-%m-%Y')\<close>, \<open>fromtimestamp py t\<close> is
  \<^verbatim>\<open>datetime.fromtimestamp(t)\<close> in the local time zone, \<open>now py\<close> is \<^verbatim>\<open>datetime.now()\<close>.
\<close>

type_synonym datetime = int

record py_env =
  strptime :: "string \<Rightarrow> exn + datetime"
  fromtimestamp :: "int \<Rightarrow> datetime"
  now :: datetime

text \<open>
  \<^verbatim>\<open>datetime.strptime(d, '%d-%m-%Y') if d else None\<close>: a missing date and the empty string
  both give \<^verbatim>\<open>None\<close>.
\<close>

definition date_obj :: "py_env \<Rightarrow> string option \<Rightarrow> exn + datetime option" where
  "date_obj py d =
     (case d of
        None \<Rightarrow> Inr None
      | Some s \<Rightarrow> if s = [] then Inr None
          else (case strptime py s of Inl e \<Rightarrow> Inl e | Inr t \<Rightarrow> Inr (Some t)))"

text \<open>
  The loop of \<^verbatim>\<open>get_commits\<close>:
  \<^verbatim>\<open>
  for commit in repo.iter_commits(branch):
      commit_date = datetime.fromtimestamp(commit.committed_date)
      if start_date_obj and commit_date < start_date_obj: continue
      if end_date_obj and commit_date > end_date_obj: continue
      commits.append(commit)
  \<close>
\<close>

fun select_commits ::
    "py_env \<Rightarrow> datetime option \<Rightarrow> datetime option \<Rightarrow> commit list \<Rightarrow> commit list \<Rightarrow> commit list"
where
  "select_commits py start_date_obj end_date_obj [] commits = commits"
| "select_commits py start_date_obj end_date_obj (c # rest) commits =
     (let commit_date = fromtimestamp py (committed_date c) in
      if (case start_date_obj of Some a \<Rightarrow> commit_date < a | None \<Rightarrow> False)
      then select_commits py start_date_obj end_date_obj rest commits
      else if (case end_date_obj of Some b \<Rightarrow> commit_date > b | None \<Rightarrow> False)
      then select_commits py start_date_obj end_date_obj rest commits
      else select_commits py start_date_obj end_date_obj rest (commits @ [c]))"

definition get_commits ::
    "py_env \<Rightarrow> repo \<Rightarrow> string \<Rightarrow> string option \<Rightarrow> string option \<Rightarrow> exn + commit list" where
  "get_commits py r branch start_date end_date =
     (if start_date = None \<and> end_date = None then Inr (iter_commits r branch)
      else case date_obj py start_date of
          Inl e \<Rightarrow> Inl e
        | Inr start_date_obj \<Rightarrow>
            (case date_obj py end_date of
               Inl e \<Rightarrow> Inl e
             | Inr end_date_obj \<Rightarrow>
                 Inr (select_commits py start_date_obj end_date_obj (iter_commits r branch) [])))"

subsection \<open>A concrete calendar\<close>

text \<open>
  For concrete runs: the proleptic Gregorian calendar, \<^verbatim>\<open>strptime\<close> on the format
  \<^verbatim>\<open>%d-%m-%Y\<close> over ASCII text (day and month with one or two digits, a year of four
  digits, nothing after it), and a machine whose local time is UTC.
\<close>

definition days_from_civil :: "int \<Rightarrow> int \<Rightarrow> int \<Rightarrow> int" where
  "days_from_civil y m d =
     (let y1 = (if m \<le> 2 then y - 1 else y);
          era = y1 div 400;
          yoe = y1 - era * 400;
          doy = (153 * (if m > 2 then m - 3 else m + 9) + 2) div 5 + d - 1;
          doe = yoe * 365 + yoe div 4 - yoe div 100 + doy
      in era * 146097 + doe - 719468)"

definition days_in_month :: "int \<Rightarrow> int \<Rightarrow> int" where
  "days_in_month y m =
     (if m = 2 then (if y mod 4 = 0 \<and> (y mod 100 \<noteq> 0 \<or> y mod 400 = 0) then 29 else 28)
      else if m = 4 \<or> m = 6 \<or> m = 9 \<or> m = 11 then 30 else 31)"

definition digit :: "char \<Rightarrow> int option" where
  "digit c = (if c \<in> set ''0123456789'' then Some (of_char c - 48) else None)"

fun number :: "string \<Rightarrow> int option" where
  "number [] = None"
| "number cs =
     (if list_all (\<lambda>c. digit c \<noteq> None) cs
      then Some (foldl (\<lambda>n c. 10 * n + the (digit c)) 0 cs) else None)"

fun split_dash :: "string \<Rightarrow> string list" where
  "split_dash [] = [[]]"
| "split_dash (c # cs) =
     (if c = CHR ''-'' then [] # split_dash cs
      else (case split_dash cs of [] \<Rightarrow> [[c]] | w # ws \<Rightarrow> (c # w) # ws))"

definition strptime_dmy :: "string \<Rightarrow> exn + datetime" where
  "strptime_dmy s =
     (case split_dash s of
        [ds, ms, ys] \<Rightarrow>
          (case (number (if length ds = 2 \<and> hd ds = CHR '' '' then tl ds else ds),
                 number ms, number ys) of
             (Some d, Some m, Some y) \<Rightarrow>
               if length ds \<le> 2 \<and> length ms \<le> 2 \<and> length ys = 4 \<and>
                  1 \<le> m \<and> m \<le> 12 \<and> 1 \<le> d \<and> d \<le> 31 \<and> 1 \<le> y
               then (if d \<le> days_in_month y m
                     then Inr (86400 * days_from_civil y m d)
                     else Inl (ValueError ''day is out of range for month''))
               else Inl (ValueError ''time data does not match format'')
           | _ \<Rightarrow> Inl (ValueError ''time data does not match format''))
      | _ \<Rightarrow> Inl (ValueError ''time data does not match format''))"

definition utc_env :: "datetime \<Rightarrow> py_env" where
  "utc_env today = \<lparr>strptime = strptime_dmy, fromtimestamp = (\<lambda>t. t), now = today\<rparr>"




section \<open>The pipeline\<close>

subsection \<open>Completion orders\<close>

text \<open>
  Both stages start a set of concurrent units and consume their completions in whatever
  order they arrive. The order is a parameter of the model: a schedule is a list of unit
  names, read as priorities. \<open>pick_order sched units\<close> is the order of completion it
  induces: the units named by the schedule first, in the schedule's order, each started
  unit once, then the started units the schedule does not name. Every started unit
  completes (the worker it was handed to returns), and every arrangement of the units is
  induced by some schedule.
\<close>

fun pick_order :: "'a list \<Rightarrow> 'a list \<Rightarrow> 'a list" where
  "pick_order [] units = units"
| "pick_order (e # es) units =
     (if e \<in> set units then e # pick_order es (remove1 e units) else pick_order es units)"

subsection \<open>Stage A: changed files of each commit\<close>

text \<open>
  \<^verbatim>\<open>
  def get_changed_files(args):
      repo, commit_sha = args
      return commit_sha, repo.git.show('--pretty=', '--name-only', commit_sha).splitlines()
  \<close>
\<close>

definition get_changed_files :: "repo \<Rightarrow> sha \<Rightarrow> exn + (sha \<times> path list)" where
  "get_changed_files r commit_sha =
     (case show_name_only r commit_sha of
        Inl e \<Rightarrow> Inl e
      | Inr lines \<Rightarrow> Inr (commit_sha, lines))"

text \<open>
  The loop over \<^verbatim>\<open>as_completed(future_to_commit)\<close>, one future per selected commit; the
  dictionary \<^verbatim>\<open>commit_files\<close> is an association list in insertion order.
  \<^verbatim>\<open>
  for future in concurrent.futures.as_completed(future_to_commit):
      commit_sha = future_to_commit[future]
      try:
          result = future.result()
          commit_files[result[0]] = result[1]
      except Exception as e:
          failed_files.append((commit_sha, "Files could not be retrieved"))
  \<close>
\<close>

fun collect_files ::
    "repo \<Rightarrow> sha list \<Rightarrow> (sha \<times> path list) list \<Rightarrow> (sha \<times> string) list \<Rightarrow>
     (sha \<times> path list) list \<times> (sha \<times> string) list" where
  "collect_files r [] commit_files failed = (commit_files, failed)"
| "collect_files r (commit_sha # rest) commit_files failed =
     (case get_changed_files r commit_sha of
        Inr result \<Rightarrow>
          collect_files r rest (AList.update (fst result) (snd result) commit_files) failed
      | Inl e \<Rightarrow>
          collect_files r rest commit_files
            (failed @ [(commit_sha, ''Files could not be retrieved'')]))"

subsection \<open>Stage B: one task per commit, one unit per file\<close>

text \<open>
  \<^verbatim>\<open>
  async def process_commit(repo, commit_sha, files, backup_dir, failed_files):
      try:
          commit = repo.commit(commit_sha)
          commit_backup_dir = os.path.join(backup_dir, commit_sha)
          os.makedirs(commit_backup_dir, exist_ok=True)
          tasks = [process_file(repo, commit, file, commit_backup_dir, failed_files) for file in files]
          await asyncio.gather(*tasks)
      except BackupError as e:
          logger.exception(...)
  \<close>
  A commit task records the commit object, its directory, the file units it started that
  have not completed yet, and whether \<^verbatim>\<open>process_commit\<close> has returned.
\<close>

record task =
  task_sha :: sha
  task_commit :: commit
  task_dir :: path
  pending :: "path list"
  returned :: bool

text \<open>
  The part of \<^verbatim>\<open>process_commit\<close> before its \<^verbatim>\<open>await\<close>. It runs without interruption when
  the task is first scheduled. A \<^verbatim>\<open>BackupError\<close> raised here is caught by the handler and
  the task returns having started no unit; any other exception leaves \<^verbatim>\<open>process_commit\<close>.
  With no files, \<^verbatim>\<open>gather()\<close> has nothing to wait for and the task returns.
\<close>

definition start_commit ::
    "os_env \<Rightarrow> repo \<Rightarrow> path \<Rightarrow> sha \<Rightarrow> path list \<Rightarrow> filesystem \<Rightarrow> (exn + task) \<times> filesystem" where
  "start_commit os r backup_dir commit_sha fls fs0 =
     (let caught = \<lparr>task_sha = commit_sha, task_commit = \<lparr>hexsha = commit_sha, committed_date = 0\<rparr>,
                     task_dir = join backup_dir commit_sha, pending = [], returned = True\<rparr>
      in case commit_of r commit_sha of
          Inl (BackupError m) \<Rightarrow> (Inr caught, fs0)
        | Inl e \<Rightarrow> (Inl e, fs0)
        | Inr c \<Rightarrow>
            (case makedirs os (join backup_dir commit_sha) fs0 of
               Inl e \<Rightarrow> (Inl e, fs0)
             | Inr fs1 \<Rightarrow>
                 (Inr \<lparr>task_sha = commit_sha, task_commit = c,
                       task_dir = join backup_dir commit_sha,
                       pending = fls, returned = (fls = [])\<rparr>, fs1)))"

text \<open>
  \<^verbatim>\<open>asyncio.gather(*[process_commit(...) for commit_sha, files in commit_files.items()])\<close>
  schedules the commit tasks in dictionary order; each runs up to its \<^verbatim>\<open>await\<close> before the
  first completion of a file unit is handled. The result lists the tasks that reached their
  \<^verbatim>\<open>await\<close> (or returned) and the exceptions that left a \<^verbatim>\<open>process_commit\<close>.
\<close>

fun start_all ::
    "os_env \<Rightarrow> repo \<Rightarrow> path \<Rightarrow> (sha \<times> path list) list \<Rightarrow> filesystem \<Rightarrow>
     task list \<times> exn list \<times> filesystem" where
  "start_all os r backup_dir [] fs0 = ([], [], fs0)"
| "start_all os r backup_dir ((commit_sha, fls) # rest) fs0 =
     (case start_commit os r backup_dir commit_sha fls fs0 of
        (Inl e, fs1) \<Rightarrow>
          (case start_all os r backup_dir rest fs1 of (ts, es, fs2) \<Rightarrow> (ts, e # es, fs2))
      | (Inr t, fs1) \<Rightarrow>
          (case start_all os r backup_dir rest fs1 of (ts, es, fs2) \<Rightarrow> (t # ts, es, fs2)))"

text \<open>
  One file unit completes. The unit's whole effect (\<open>process_file\<close>) is applied at that
  moment. The inner \<^verbatim>\<open>gather\<close> of its commit resolves, and \<^verbatim>\<open>process_commit\<close> returns, when
  the last unit has completed or when a unit raises: \<^verbatim>\<open>gather\<close> hands the first exception to
  its awaiter at once, and the handler for \<^verbatim>\<open>BackupError\<close> only logs. The remaining units of
  that commit are not cancelled; they are no longer awaited.
\<close>

fun complete_unit ::
    "os_env \<Rightarrow> repo \<Rightarrow> sha \<times> path \<Rightarrow> task list \<Rightarrow> state \<Rightarrow> task list \<times> state" where
  "complete_unit os r u [] s = ([], s)"
| "complete_unit os r u (t # ts) s =
     (if task_sha t = fst u \<and> snd u \<in> set (pending t)
      then (case process_file os r (task_commit t) (snd u) (task_dir t) s of
              (res, s1) \<Rightarrow>
                (t\<lparr>pending := remove1 (snd u) (pending t),
                   returned := (returned t \<or> isl res \<or> remove1 (snd u) (pending t) = [])\<rparr> # ts,
                 s1))
      else (case complete_unit os r u ts s of (ts1, s1) \<Rightarrow> (t # ts1, s1)))"

text \<open>
  The event loop runs until the outer \<^verbatim>\<open>gather\<close> resolves, that is until every
  \<^verbatim>\<open>process_commit\<close> has returned; then \<^verbatim>\<open>backup_files\<close> returns and \<^verbatim>\<open>main\<close> either
  returns or exits. \<^verbatim>\<open>fire.Fire(main)\<close> runs the loop only until \<^verbatim>\<open>main\<close> is complete, so
  no later completion is ever handled: a unit that is still running then never writes its
  file and never records its failure.
\<close>

fun run_units ::
    "os_env \<Rightarrow> repo \<Rightarrow> (sha \<times> path) list \<Rightarrow> task list \<Rightarrow> state \<Rightarrow> task list \<times> state" where
  "run_units os r [] ts s = (ts, s)"
| "run_units os r (u # us) ts s =
     (if list_all returned ts then (ts, s)
      else (case complete_unit os r u ts s of (ts1, s1) \<Rightarrow> run_units os r us ts1 s1))"

definition units_of :: "task list \<Rightarrow> (sha \<times> path) list" where
  "units_of ts = concat (map (\<lambda>t. map (Pair (task_sha t)) (pending t)) ts)"

text \<open>
  Stage B as a whole. When a \<^verbatim>\<open>process_commit\<close> raised before its \<^verbatim>\<open>await\<close>, the outer
  \<^verbatim>\<open>gather\<close> hands the first such exception to \<^verbatim>\<open>backup_files\<close>, which does not catch it;
  it reaches \<^verbatim>\<open>main\<close> within two turns of the loop, before the fetch of any file unit has
  returned, so no file unit completes in such a run.
\<close>

definition process_commits ::
    "os_env \<Rightarrow> repo \<Rightarrow> path \<Rightarrow> (sha \<times> path list) list \<Rightarrow> (sha \<times> path) list \<Rightarrow> state \<Rightarrow>
     (exn + unit) \<times> state" where
  "process_commits os r backup_dir commit_files sched s =
     (case start_all os r backup_dir commit_files (fs s) of
        (ts, e # es, fs1) \<Rightarrow> (Inl e, s\<lparr>fs := fs1\<rparr>)
      | (ts, [], fs1) \<Rightarrow>
          (Inr (), snd (run_units os r (pick_order sched (units_of ts)) ts (s\<lparr>fs := fs1\<rparr>))))"

text \<open>
  \<^verbatim>\<open>backup_files\<close>. \<open>order_a\<close> is the schedule of the process pool, over commit
  identifiers; \<open>sched_b\<close> is the schedule of the event loop, over (commit, file) pairs.
\<close>

definition backup_files ::
    "os_env \<Rightarrow> py_env \<Rightarrow> repo \<Rightarrow> path \<Rightarrow> string \<Rightarrow> string option \<Rightarrow> string option \<Rightarrow>
     sha list \<Rightarrow> (sha \<times> path) list \<Rightarrow> state \<Rightarrow> (exn + unit) \<times> state" where
  "backup_files os py r backup_dir current_branch start_date end_date order_a sched_b s =
     (case get_commits py r current_branch start_date end_date of
        Inl e \<Rightarrow> (Inl e, s)
      | Inr commit_shas \<Rightarrow>
          (case collect_files r (pick_order order_a (map hexsha commit_shas)) [] (failed_files s) of
             (commit_files, failed) \<Rightarrow>
               process_commits os r backup_dir commit_files sched_b (s\<lparr>failed_files := failed\<rparr>)))"

subsection \<open>Validation and the entry point\<close>

definition path_exists :: "filesystem \<Rightarrow> path \<Rightarrow> bool" where
  "path_exists fs0 p = (p \<in> dirs fs0 \<or> files fs0 p \<noteq> None)"

text \<open>
  \<^verbatim>\<open>validate\<close>; \<open>open_repo p\<close> is \<^verbatim>\<open>git.Repo(p)\<close>. Dates are checked only when given and
  not empty; a date that does not parse raises \<^verbatim>\<open>ValueError\<close>, which is not a
  \<^verbatim>\<open>ValidationError\<close>.
\<close>

definition validate ::
    "py_env \<Rightarrow> (path \<Rightarrow> exn + repo) \<Rightarrow> filesystem \<Rightarrow> path \<Rightarrow> path \<Rightarrow>
     string option \<Rightarrow> string option \<Rightarrow> exn + unit" where
  "validate py open_repo fs0 repo_dir backup_dir start_date end_date =
     (if \<not> path_exists fs0 backup_dir
      then Inl (ValidationError ''The backup folder does not exist'')
      else if \<not> path_exists fs0 repo_dir
      then Inl (ValidationError ''The repository directory does not exist.'')
      else case open_repo repo_dir of
          Inl (InvalidGitRepositoryError m) \<Rightarrow>
            Inl (ValidationError ''The directory is not a valid Git repository.'')
        | Inl e \<Rightarrow> Inl e
        | Inr r \<Rightarrow>
            (case date_obj py start_date of
               Inl e \<Rightarrow> Inl e
             | Inr start_date_obj \<Rightarrow>
                 if (case start_date_obj of Some a \<Rightarrow> a > now py | None \<Rightarrow> False)
                 then Inl (ValidationError ''The start date is later than today's date'')
                 else (case date_obj py end_date of
                         Inl e \<Rightarrow> Inl e
                       | Inr end_date_obj \<Rightarrow>
                           if (case (start_date_obj, end_date_obj) of
                                 (Some a, Some b) \<Rightarrow> a > b | _ \<Rightarrow> False)
                           then Inl (ValidationError ''The start date is after the end date.'')
                           else Inr ())))"

text \<open>
  \<^verbatim>\<open>
  async def main(repo_dir, backup_dir, start_date, end_date):
      failed_files = []
      try:
          validate(...); repo = git.Repo(repo_dir); current_branch = get_current_branch(repo)
          await backup_files(repo, backup_dir, current_branch, start_date, end_date, failed_files)
          if failed_files: ...; sys.exit(1)
          else: logger.info("Backup completed successfully.")
      except ValidationError as e: ...; sys.exit(1)
      except Exception as e: ...; sys.exit(1)
  \<close>
  The result is how the process ends and the state it leaves.
\<close>

datatype run_result = Success | Failure

definition main ::
    "os_env \<Rightarrow> py_env \<Rightarrow> (path \<Rightarrow> exn + repo) \<Rightarrow> path \<Rightarrow> path \<Rightarrow> string option \<Rightarrow> string option \<Rightarrow>
     sha list \<Rightarrow> (sha \<times> path) list \<Rightarrow> filesystem \<Rightarrow> run_result \<times> state" where
  "main os py open_repo repo_dir backup_dir start_date end_date order_a sched_b fs0 =
     (let s0 = \<lparr>fs = fs0, failed_files = []\<rparr> in
      case validate py open_repo fs0 repo_dir backup_dir start_date end_date of
        Inl e \<Rightarrow> (Failure, s0)
      | Inr u \<Rightarrow>
          (case open_repo repo_dir of
             Inl e \<Rightarrow> (Failure, s0)
           | Inr r \<Rightarrow>
               (case active_branch r of
                  Inl e \<Rightarrow> (Failure, s0)
                | Inr current_branch \<Rightarrow>
                    (case backup_files os py r backup_dir current_branch start_date end_date
                            order_a sched_b s0 of
                       (Inl e, s1) \<Rightarrow> (Failure, s1)
                     | (Inr v, s1) \<Rightarrow>
                         if failed_files s1 \<noteq> [] then (Failure, s1) else (Success, s1)))))"

text \<open>
  The destination of the unit (commit identifier, file): \<^verbatim>\<open>process_commit\<close> joins the backup
  directory with the identifier, \<^verbatim>\<open>process_file\<close> joins the result with the file.
\<close>

definition destination :: "path \<Rightarrow> sha \<times> path \<Rightarrow> path" where
  "destination backup_dir u = join (join backup_dir (fst u)) (snd u)"

text \<open>
  What Git guarantees about names: a commit identifier is a non-empty string without
  separator, and a changed file is named by a path relative to the repository root.
\<close>

definition wf_sha :: "sha \<Rightarrow> bool" where
  "wf_sha k = (k \<noteq> [] \<and> CHR ''/'' \<notin> set k)"

definition relative :: "path \<Rightarrow> bool" where
  "relative f = (f = [] \<or> hd f \<noteq> CHR ''/'')"

text \<open>
  A unit that does not fail hard: Git returns the content and neither the directories nor
  the write fail, or Git reports that the file does not exist in the commit. A commit task
  is clean when none of the units it started fails hard.
\<close>

definition unit_ok :: "os_env \<Rightarrow> repo \<Rightarrow> commit \<Rightarrow> path \<Rightarrow> path \<Rightarrow> bool" where
  "unit_ok os r c d file =
     (case read_file_content r c file of
        Inl e \<Rightarrow> is_deletion e
      | Inr content \<Rightarrow>
          dirname (join d file) \<noteq> [] \<and>
          makedirs_fault os (dirname (join d file)) = None \<and>
          write_fault os (join d file) content = Written)"









section \<open>Concrete worlds\<close>

text \<open>
  A repository with one commit that changed three files: \<^verbatim>\<open>bad.txt\<close> cannot be fetched,
  \<^verbatim>\<open>good.txt\<close> can, and \<^verbatim>\<open>gone.txt\<close> was deleted by the commit. The commit was made on
  15 March 2023 at 10:00:00 UTC.
\<close>

definition c1 :: commit where
  "c1 = \<lparr>hexsha = ''abc123'', committed_date = 1678874400\<rparr>"

definition repo1 :: repo where
  "repo1 =
     \<lparr>iter_commits = (\<lambda>b. [c1]),
      show_name_only = (\<lambda>s. Inr [''bad.txt'', ''good.txt'', ''gone.txt'']),
      show = (\<lambda>a. if a = ''abc123:good.txt'' then Inr ''file content''
                   else if a = ''abc123:gone.txt''
                   then Inl (GitCommandError ''fatal: path gone.txt does not exist in abc123'')
                   else Inl (GitCommandError ''fatal: bad object'')),
      commit_of = (\<lambda>s. Inr (c1\<lparr>hexsha := s\<rparr>)),
      active_branch = Inr ''main''\<rparr>"

text \<open>An operating system on which nothing fails, and an empty backup directory.\<close>

definition os_ok :: os_env where
  "os_ok = \<lparr>makedirs_fault = (\<lambda>p. None), write_fault = (\<lambda>p c. Written)\<rparr>"

definition fs_empty :: filesystem where
  "fs_empty = \<lparr>dirs = {''data'', ''.''}, files = Map.empty\<rparr>"

definition s_empty :: state where
  "s_empty = \<lparr>fs = fs_empty, failed_files = []\<rparr>"


text \<open>
  A repository with two commits; Git cannot list the changed files of the first and lists
  two files for the second.
\<close>

definition repo2 :: repo where
  "repo2 =
     \<lparr>iter_commits = (\<lambda>b. [\<lparr>hexsha = ''aaa'', committed_date = 1675209600\<rparr>,
                             \<lparr>hexsha = ''bbb'', committed_date = 1672531200\<rparr>]),
      show_name_only = (\<lambda>s. if s = ''bbb'' then Inr [''x.txt'', ''d/y.txt'']
                              else Inl (OtherException ''worker process died'')),
      show = (\<lambda>a. Inr ''text''),
      commit_of = (\<lambda>s. Inr \<lparr>hexsha = s, committed_date = 0\<rparr>),
      active_branch = Inr ''main''\<rparr>"

text \<open>An operating system that refuses to create any directory (a read-only backup folder).\<close>

definition os_readonly :: os_env where
  "os_readonly = \<lparr>makedirs_fault = (\<lambda>p. Some ''Permission denied''),
                   write_fault = (\<lambda>p c. OpenFails ''Permission denied'')\<rparr>"

text \<open>The task of the commit of \<open>repo1\<close>, at its \<^verbatim>\<open>await\<close>, with its three file units started.\<close>

definition task1 :: task where
  "task1 = \<lparr>task_sha = ''abc123'', task_commit = c1, task_dir = ''data/abc123'',
            pending = [''bad.txt'', ''good.txt'', ''gone.txt''], returned = False\<rparr>"






text \<open>
  The repository \<open>repo1\<close> with a commit that changed three files, two of which cannot
  be fetched.
\<close>

definition repo3 :: repo where
  "repo3 = repo1\<lparr>show_name_only := (\<lambda>s. Inr [''bad.txt'', ''good.txt'', ''worse.txt''])\<rparr>"

section \<open>The per-file unit: deletion skips and hard failures\<close>



section \<open>The commit selector\<close>








section \<open>Stage A: extraction failures\<close>

lemma mset_pick_order: "mset (pick_order sched us) = mset us"
  by (induction sched arbitrary: us) auto

lemma set_pick_order: "set (pick_order sched us) = set us"
  using mset_pick_order [of sched us] by (metis set_mset_mset)

lemma distinct_pick_order: "distinct (pick_order sched us) = distinct us"
  using mset_pick_order [of sched us] by (metis distinct_count_atmost_1 set_mset_mset)


lemma collect_files_map:
  "map_of (fst (collect_files r cs cf ff)) k =
     (if k \<in> set cs \<and> \<not> isl (show_name_only r k)
      then Some (projr (show_name_only r k)) else map_of cf k)"
  by (induction cs arbitrary: cf ff)
     (auto simp: get_changed_files_def update_conv split: sum.splits)






section \<open>Concrete runs\<close>

lemmas eval_defs =
  main_def validate_def path_exists_def date_obj_def backup_files_def get_commits_def
  get_changed_files_def process_commits_def start_commit_def makedirs_def units_of_def
  process_file_def read_file_content_def handle_exn_def is_deletion_def join_def dirname_def
  write_file_content_def ancestors.simps sublist_Cons_right prefix_Cons Let_def

lemmas world1_defs = repo1_def c1_def os_ok_def fs_empty_def utc_env_def

section \<open>The result of a run\<close>

text \<open>
  C9, as the code has it. A run that leaves a non-empty failure list ends in failure. When
  validation passes, the repository opens, the branch is found and \<^verbatim>\<open>backup_files\<close>
  returns without raising, the run ends in failure exactly when the failure list is not
  empty and in success exactly when it is empty. (In every other case \<^verbatim>\<open>main\<close> exits with
  status 1 from one of its two outer handlers, whatever the list holds.)
\<close>

theorem main_result:
  "(failed_files (snd (main os py open_repo repo_dir backup_dir start_date end_date
                         order_a sched_b fs0)) \<noteq> []
      \<longrightarrow> fst (main os py open_repo repo_dir backup_dir start_date end_date
                 order_a sched_b fs0) = Failure) \<and>
   (validate py open_repo fs0 repo_dir backup_dir start_date end_date = Inr () \<and>
    open_repo repo_dir = Inr r \<and> active_branch r = Inr current_branch \<and>
    fst (backup_files os py r backup_dir current_branch start_date end_date order_a sched_b
           \<lparr>fs = fs0, failed_files = []\<rparr>) = Inr ()
      \<longrightarrow> (fst (main os py open_repo repo_dir backup_dir start_date end_date
                  order_a sched_b fs0) = Failure
             \<longleftrightarrow> failed_files (snd (main os py open_repo repo_dir backup_dir start_date
                                        end_date order_a sched_b fs0)) \<noteq> []) \<and>
          (fst (main os py open_repo repo_dir backup_dir start_date end_date
                  order_a sched_b fs0) = Success
             \<longleftrightarrow> failed_files (snd (main os py open_repo repo_dir backup_dir start_date
                                        end_date order_a sched_b fs0)) = []))"
  by (auto simp: main_def Let_def split: sum.splits prod.splits)

theorem main_result_witness:
  "validate (utc_env 1700000000) (\<lambda>p. Inr repo1) fs_empty ''.'' ''data'' None None = Inr () \<and>
   active_branch repo1 = Inr ''main'' \<and>
   fst (backup_files os_ok (utc_env 1700000000) repo1 ''data'' ''main'' None None [] []
          \<lparr>fs = fs_empty, failed_files = []\<rparr>) = Inr () \<and>
   failed_files (snd (main os_ok (utc_env 1700000000) (\<lambda>p. Inr repo1) ''.'' ''data'' None None
                        [] [] fs_empty)) = [(''abc123'', ''bad.txt'')] \<and>
   fst (main os_ok (utc_env 1700000000) (\<lambda>p. Inr repo1) ''.'' ''data'' None None
          [] [] fs_empty) = Failure"
proof -
  have v: "validate (utc_env 1700000000) (\<lambda>p. Inr repo1) fs_empty ''.'' ''data'' None None = Inr ()"
    by (simp add: eval_defs world1_defs)
  have a: "active_branch repo1 = Inr ''main''"
    by (simp add: repo1_def)
  have b: "fst (backup_files os_ok (utc_env 1700000000) repo1 ''data'' ''main'' None None [] []
          \<lparr>fs = fs_empty, failed_files = []\<rparr>) = Inr ()"
    by (simp add: eval_defs world1_defs)
  have f: "failed_files (snd (main os_ok (utc_env 1700000000) (\<lambda>p. Inr repo1) ''.'' ''data''
                                None None [] [] fs_empty)) = [(''abc123'', ''bad.txt'')]"
    by (simp add: eval_defs world1_defs)
  show ?thesis
    using v a b f
      main_result [of os_ok "utc_env 1700000000" "\<lambda>p. Inr repo1" "''.''" "''data''" None None
        "[]" "[]" fs_empty repo1 "''main''"]
    by simp
qed

text \<open>
  The claim as stated fails when an exception that is no \<^verbatim>\<open>BackupError\<close> leaves
  \<^verbatim>\<open>process_commit\<close>. On a backup folder in which no directory can be created,
  \<^verbatim>\<open>os.makedirs\<close> raises in \<^verbatim>\<open>process_commit\<close>, the last handler of \<^verbatim>\<open>main\<close> exits with
  status 1, and the failure list is empty.
\<close>

theorem main_failure_with_empty_list_counterexample:
  "fst (main os_readonly (utc_env 1700000000) (\<lambda>p. Inr repo1) ''.'' ''data'' None None
          [] [] fs_empty) = Failure \<and>
   failed_files (snd (main os_readonly (utc_env 1700000000) (\<lambda>p. Inr repo1) ''.'' ''data''
                        None None [] [] fs_empty)) = []"
  by (simp add: eval_defs world1_defs os_readonly_def)

section \<open>Failure records are appended before the unit raises, and kept\<close>

lemma process_file_raises:
  "fst (process_file os r c file d s) = Inl e \<Longrightarrow>
     (\<exists>m. e = BackupError m) \<and>
     failed_files (snd (process_file os r c file d s)) = failed_files s @ [(hexsha c, file)]"
  by (auto simp: process_file_def handle_exn_def Let_def split: sum.splits prod.splits if_splits)

lemma process_file_returns:
  "fst (process_file os r c file d s) = Inr u \<Longrightarrow>
     failed_files (snd (process_file os r c file d s)) = failed_files s"
  by (auto simp: process_file_def handle_exn_def Let_def split: sum.splits prod.splits if_splits)

lemma process_file_failed_mono:
  "prefix (failed_files s) (failed_files (snd (process_file os r c file d s)))"
  by (cases "fst (process_file os r c file d s)")
     (auto dest: process_file_raises process_file_returns)

lemma complete_unit_failed_mono:
  "prefix (failed_files s) (failed_files (snd (complete_unit os r u ts s)))"
proof (induction ts)
  case Nil
  then show ?case by simp
next
  case (Cons t ts)
  show ?case
  proof (cases "task_sha t = fst u \<and> snd u \<in> set (pending t)")
    case True
    then show ?thesis
      using process_file_failed_mono [of s os r "task_commit t" "snd u" "task_dir t"]
      by (simp split: prod.splits) (metis snd_conv)
  next
    case False
    then show ?thesis using Cons.IH by (simp split: prod.splits) (metis snd_conv)
  qed
qed

lemma run_units_failed_mono:
  "prefix (failed_files s) (failed_files (snd (run_units os r us ts s)))"
proof (induction us arbitrary: ts s)
  case Nil
  then show ?case by simp
next
  case (Cons u us)
  show ?case
  proof (cases "list_all returned ts")
    case True
    then show ?thesis by simp
  next
    case False
    obtain ts1 s1 where cu: "complete_unit os r u ts s = (ts1, s1)"
      by (cases "complete_unit os r u ts s")
    have "prefix (failed_files s) (failed_files s1)"
      using complete_unit_failed_mono [of s os r u ts] cu by simp
    moreover have "prefix (failed_files s1) (failed_files (snd (run_units os r us ts1 s1)))"
      by (rule Cons.IH)
    ultimately show ?thesis using False cu by (auto intro: prefix_order.trans)
  qed
qed

lemma run_units_all_returned:
  "list_all returned ts \<Longrightarrow> run_units os r us ts s = (ts, s)"
  by (cases us) auto

lemma run_units_append:
  "run_units os r (us1 @ us2) ts s =
     run_units os r us2 (fst (run_units os r us1 ts s)) (snd (run_units os r us1 ts s))"
proof (induction us1 arbitrary: ts s)
  case Nil
  then show ?case by simp
next
  case (Cons u us1)
  show ?case
  proof (cases "list_all returned ts")
    case True
    then show ?thesis by (simp add: run_units_all_returned)
  next
    case False
    then show ?thesis using Cons.IH by (simp split: prod.splits)
  qed
qed

text \<open>
  C10. When a file unit raises, what it raises is a \<^verbatim>\<open>BackupError\<close> and the state it leaves
  already holds the pair (commit identifier, file path) at the end of the failure list. And
  the record stays: for a completion order \<open>us1 @ u # us2\<close> in which the loop is still
  running when unit \<open>u\<close> completes, the failure list as \<open>u\<close> leaves it is an initial
  segment of the failure list at the end of the run, whether or not the commit task of
  \<open>u\<close> went on awaiting its other units.
\<close>

theorem failure_recorded_before_raise:
  "(fst (process_file os r c file d s) = Inl e \<longrightarrow>
      (\<exists>m. e = BackupError m) \<and>
      failed_files (snd (process_file os r c file d s)) = failed_files s @ [(hexsha c, file)]) \<and>
   (\<not> list_all returned (fst (run_units os r us1 ts s0)) \<longrightarrow>
      prefix
        (failed_files (snd (complete_unit os r u (fst (run_units os r us1 ts s0))
                              (snd (run_units os r us1 ts s0)))))
        (failed_files (snd (run_units os r (us1 @ u # us2) ts s0))))"
proof -
  let ?ts1 = "fst (run_units os r us1 ts s0)" and ?s1 = "snd (run_units os r us1 ts s0)"
  have "\<not> list_all returned ?ts1 \<Longrightarrow>
     run_units os r (us1 @ u # us2) ts s0 =
       run_units os r us2 (fst (complete_unit os r u ?ts1 ?s1)) (snd (complete_unit os r u ?ts1 ?s1))"
    by (simp add: run_units_append split: prod.splits)
  then show ?thesis
    using run_units_failed_mono process_file_raises by metis
qed

theorem failure_recorded_before_raise_witness:
  "fst (process_file os_ok repo1 c1 ''bad.txt'' ''data/abc123'' s_empty) =
     Inl (BackupError ''Error processing file bad.txt: fatal: bad object'') \<and>
   failed_files (snd (process_file os_ok repo1 c1 ''bad.txt'' ''data/abc123'' s_empty)) =
     [(''abc123'', ''bad.txt'')] \<and>
   \<not> list_all returned (fst (run_units os_ok repo1 [] [task1] s_empty)) \<and>
   failed_files (snd (complete_unit os_ok repo1 (''abc123'', ''bad.txt'')
                        (fst (run_units os_ok repo1 [] [task1] s_empty))
                        (snd (run_units os_ok repo1 [] [task1] s_empty)))) =
     [(''abc123'', ''bad.txt'')] \<and>
   list_all returned (fst (complete_unit os_ok repo1 (''abc123'', ''bad.txt'') [task1] s_empty)) \<and>
   prefix [(''abc123'', ''bad.txt'')]
     (failed_files (snd (run_units os_ok repo1
        ([] @ (''abc123'', ''bad.txt'') # [(''abc123'', ''good.txt''), (''abc123'', ''gone.txt'')])
        [task1] s_empty)))"
proof -
  have p: "fst (process_file os_ok repo1 c1 ''bad.txt'' ''data/abc123'' s_empty) =
     Inl (BackupError ''Error processing file bad.txt: fatal: bad object'')"
    by (simp add: eval_defs world1_defs s_empty_def)
  have n: "\<not> list_all returned (fst (run_units os_ok repo1 [] [task1] s_empty))"
    by (simp add: task1_def)
  have c: "failed_files (snd (complete_unit os_ok repo1 (''abc123'', ''bad.txt'')
                        (fst (run_units os_ok repo1 [] [task1] s_empty))
                        (snd (run_units os_ok repo1 [] [task1] s_empty)))) =
     [(''abc123'', ''bad.txt'')]"
    by (simp add: task1_def eval_defs world1_defs s_empty_def)
  have l: "list_all returned
      (fst (complete_unit os_ok repo1 (''abc123'', ''bad.txt'') [task1] s_empty))"
    by (simp add: task1_def eval_defs world1_defs s_empty_def)
  show ?thesis
    using p n c l
      failure_recorded_before_raise [of os_ok repo1 c1 "''bad.txt''" "''data/abc123''" s_empty
        "BackupError ''Error processing file bad.txt: fatal: bad object''"
        "[]" "[task1]" s_empty "(''abc123'', ''bad.txt'')"
        "[(''abc123'', ''good.txt''), (''abc123'', ''gone.txt'')]"]
    by (simp add: s_empty_def c1_def)
qed

section \<open>The snapshot writer\<close>








section \<open>Units and their destinations\<close>

lemma collect_files_keys_distinct:
  "distinct (map fst cf) \<Longrightarrow> distinct (map fst (fst (collect_files r cs cf ff)))"
  by (induction cs arbitrary: cf ff)
     (auto simp: get_changed_files_def distinct_update split: sum.splits)

lemma collect_files_entry:
  assumes "(k, fl) \<in> set (fst (collect_files r cs [] ff))"
  shows "show_name_only r k = Inr fl \<and> k \<in> set cs"
proof -
  have "distinct (map fst (fst (collect_files r cs [] ff)))"
    by (rule collect_files_keys_distinct) simp
  with assms have "map_of (fst (collect_files r cs [] ff)) k = Some fl"
    by (rule_tac map_of_is_SomeI)
  then show ?thesis
    by (auto simp: collect_files_map split: if_splits sum.splits)
qed

lemma start_commit_task:
  "start_commit os r bd k fl fs0 = (Inr t, fs1) \<Longrightarrow>
     task_sha t = k \<and> task_dir t = join bd k \<and> (pending t = fl \<or> pending t = [])"
  by (auto simp: start_commit_def Let_def split: sum.splits exn.splits if_splits)

lemma start_all_shas:
  "subseq (map task_sha (fst (start_all os r bd cf fs0))) (map fst cf)"
proof (induction cf arbitrary: fs0)
  case Nil
  then show ?case by simp
next
  case (Cons kf cf)
  obtain k fl where kf: "kf = (k, fl)" by (cases kf)
  obtain res fs1 where sc: "start_commit os r bd k fl fs0 = (res, fs1)"
    by (cases "start_commit os r bd k fl fs0")
  obtain ts es fs2 where sa: "start_all os r bd cf fs1 = (ts, es, fs2)"
    by (cases "start_all os r bd cf fs1")
  have ih: "subseq (map task_sha ts) (map fst cf)"
    using Cons.IH [of fs1] sa by simp
  show ?case
  proof (cases res)
    case (Inl e)
    with kf sc sa ih show ?thesis by (auto intro: list_emb_Cons)
  next
    case (Inr t)
    with start_commit_task [of os r bd k fl fs0 t fs1] sc have "task_sha t = k" by simp
    with Inr kf sc sa ih show ?thesis by simp
  qed
qed

lemma start_all_tasks:
  "t \<in> set (fst (start_all os r bd cf fs0)) \<Longrightarrow>
     task_dir t = join bd (task_sha t) \<and>
     (\<exists>fl. (task_sha t, fl) \<in> set cf \<and> (pending t = fl \<or> pending t = []))"
proof (induction cf arbitrary: fs0)
  case Nil
  then show ?case by simp
next
  case (Cons kf cf)
  obtain k fl where kf: "kf = (k, fl)" by (cases kf)
  obtain res fs1 where sc: "start_commit os r bd k fl fs0 = (res, fs1)"
    by (cases "start_commit os r bd k fl fs0")
  obtain ts es fs2 where sa: "start_all os r bd cf fs1 = (ts, es, fs2)"
    by (cases "start_all os r bd cf fs1")
  show ?case
  proof (cases res)
    case (Inl e)
    with Cons.prems kf sc sa have "t \<in> set (fst (start_all os r bd cf fs1))" by simp
    from Cons.IH [OF this] show ?thesis by auto
  next
    case (Inr t')
    with Cons.prems kf sc sa have "t = t' \<or> t \<in> set (fst (start_all os r bd cf fs1))" by auto
    then show ?thesis
    proof
      assume "t = t'"
      with start_commit_task [of os r bd k fl fs0 t' fs1] sc Inr kf show ?thesis by auto
    next
      assume "t \<in> set (fst (start_all os r bd cf fs1))"
      from Cons.IH [OF this] show ?thesis by auto
    qed
  qed
qed

lemma distinct_units_of:
  "distinct (map task_sha ts) \<Longrightarrow> (\<forall>t \<in> set ts. distinct (pending t)) \<Longrightarrow>
     distinct (units_of ts)"
  by (induction ts) (auto simp: units_of_def distinct_map inj_on_def)

lemma sep_append_inject:
  assumes "CHR ''/'' \<notin> set a" and "CHR ''/'' \<notin> set b"
    and "a @ CHR ''/'' # x = b @ CHR ''/'' # y"
  shows "a = b \<and> x = y"
proof -
  have "takeWhile (\<lambda>c. c \<noteq> CHR ''/'') (a @ CHR ''/'' # x) = a"
    using assms(1) by (induction a) auto
  moreover have "takeWhile (\<lambda>c. c \<noteq> CHR ''/'') (b @ CHR ''/'' # y) = b"
    using assms(2) by (induction b) auto
  ultimately show ?thesis using assms(3) by auto
qed

lemma destination_sep:
  assumes "wf_sha k" and "relative f"
  shows "destination bd (k, f) =
           (if bd = [] \<or> last bd = CHR ''/'' then bd else bd @ ''/'') @ k @ CHR ''/'' # f"
proof -
  have k: "k \<noteq> []" "hd k \<noteq> CHR ''/''" "last k \<noteq> CHR ''/''"
    using assms(1) by (auto simp: wf_sha_def dest: hd_in_set last_in_set)
  have f: "\<not> (f \<noteq> [] \<and> hd f = CHR ''/'')" using assms(2) by (auto simp: relative_def)
  show ?thesis using k f by (auto simp: destination_def join_def)
qed

lemma destination_inject:
  assumes "wf_sha k" "relative f" "wf_sha k'" "relative f'"
    and "destination bd (k, f) = destination bd (k', f')"
  shows "k = k' \<and> f = f'"
  using assms sep_append_inject [of k k' f f']
  by (simp add: destination_sep wf_sha_def)

lemma process_file_frame:
  "p \<noteq> join d file \<Longrightarrow>
     files (fs (snd (process_file os r c file d s))) p = files (fs s) p"
  by (auto simp: process_file_def handle_exn_def makedirs_def write_file_content_def Let_def
      split: sum.splits prod.splits if_splits option.splits write_outcome.splits)

lemma subseq_keeps_distinct: "subseq xs ys \<Longrightarrow> distinct ys \<Longrightarrow> distinct xs"
  by (induction rule: list_emb.induct) (auto dest: list_emb_set)

lemma units_of_mem:
  "u \<in> set (units_of ts) \<Longrightarrow> \<exists>t \<in> set ts. fst u = task_sha t \<and> snd u \<in> set (pending t)"
  by (auto simp: units_of_def)

text \<open>
  C8. Git lists each changed path of a commit once and relative to the repository root, and
  commit identifiers are non-empty and contain no separator. Then, for every order of
  completion in both stages: the file units that stage B starts are pairwise different, and
  so is the order in which they complete (each unit completes, and so runs, once); the
  directory of every commit task is \<^verbatim>\<open>backup_dir/<identifier>\<close>; different units have different
  destinations; and a unit changes no file other than its own destination.
\<close>

theorem units_once_and_apart:
  assumes names: "\<forall>k fl. show_name_only r k = Inr fl \<longrightarrow> distinct fl \<and> (\<forall>f \<in> set fl. relative f)"
    and shas: "\<forall>c \<in> set commits. wf_sha (hexsha c)"
    and a: "collect_files r (pick_order order_a (map hexsha commits)) [] failed =
              (commit_files, failed')"
    and b: "start_all os r backup_dir commit_files fs0 = (ts, es, fs1)"
  shows "distinct (units_of ts) \<and>
         distinct (pick_order sched (units_of ts)) \<and>
         (\<forall>t \<in> set ts. task_dir t = join backup_dir (task_sha t)) \<and>
         inj_on (destination backup_dir) (set (units_of ts)) \<and>
         (\<forall>u \<in> set (units_of ts). \<forall>c s p. p \<noteq> destination backup_dir u \<longrightarrow>
            files (fs (snd (process_file os r c (snd u) (join backup_dir (fst u)) s))) p =
              files (fs s) p)"
proof -
  let ?cs = "pick_order order_a (map hexsha commits)"
  have cf: "commit_files = fst (collect_files r ?cs [] failed)" using a by simp
  have ts: "ts = fst (start_all os r backup_dir commit_files fs0)" using b by simp
  have keys: "distinct (map fst commit_files)"
    unfolding cf by (rule collect_files_keys_distinct) simp
  have entry: "\<And>k fl. (k, fl) \<in> set commit_files \<Longrightarrow>
      distinct fl \<and> (\<forall>f \<in> set fl. relative f) \<and> wf_sha k"
  proof -
    fix k fl assume "(k, fl) \<in> set commit_files"
    then have "show_name_only r k = Inr fl" "k \<in> set ?cs"
      using collect_files_entry [of k fl r ?cs failed] cf by simp_all
    then show "distinct fl \<and> (\<forall>f \<in> set fl. relative f) \<and> wf_sha k"
      using names shas by (auto simp: set_pick_order)
  qed
  have task: "\<And>t. t \<in> set ts \<Longrightarrow>
      task_dir t = join backup_dir (task_sha t) \<and> wf_sha (task_sha t) \<and>
      distinct (pending t) \<and> (\<forall>f \<in> set (pending t). relative f)"
  proof -
    fix t assume "t \<in> set ts"
    then obtain fl where "task_dir t = join backup_dir (task_sha t)"
        "(task_sha t, fl) \<in> set commit_files" "pending t = fl \<or> pending t = []"
      using start_all_tasks [of t os r backup_dir commit_files fs0] ts by auto
    then show "task_dir t = join backup_dir (task_sha t) \<and> wf_sha (task_sha t) \<and>
      distinct (pending t) \<and> (\<forall>f \<in> set (pending t). relative f)"
      using entry [of "task_sha t" fl] by auto
  qed
  have "distinct (map task_sha ts)"
    using start_all_shas [of os r backup_dir commit_files fs0] keys ts subseq_keeps_distinct by blast
  then have d: "distinct (units_of ts)"
    using task by (intro distinct_units_of) auto
  have wf: "\<And>u. u \<in> set (units_of ts) \<Longrightarrow> wf_sha (fst u) \<and> relative (snd u)"
    using units_of_mem task by fastforce
  have inj: "inj_on (destination backup_dir) (set (units_of ts))"
  proof (rule inj_onI)
    fix u v assume "u \<in> set (units_of ts)" "v \<in> set (units_of ts)"
      and "destination backup_dir u = destination backup_dir v"
    then show "u = v"
      using wf [of u] wf [of v] destination_inject [of "fst u" "snd u" "fst v" "snd v" backup_dir]
      by (simp add: prod_eq_iff)
  qed
  have frame: "\<forall>u \<in> set (units_of ts). \<forall>c s p. p \<noteq> destination backup_dir u \<longrightarrow>
            files (fs (snd (process_file os r c (snd u) (join backup_dir (fst u)) s))) p =
              files (fs s) p"
    by (simp add: destination_def process_file_frame)
  from d inj frame task show ?thesis by (simp add: distinct_pick_order)
qed

theorem units_once_and_apart_witness:
  "wf_sha ''aaa'' \<and> wf_sha ''bbb'' \<and> relative ''x.txt'' \<and> relative ''d/y.txt'' \<and>
   collect_files repo2 (pick_order [''bbb''] (map hexsha (iter_commits repo2 ''main''))) [] [] =
     ([(''bbb'', [''x.txt'', ''d/y.txt''])], [(''aaa'', ''Files could not be retrieved'')]) \<and>
   units_of (fst (start_all os_ok repo2 ''data'' [(''bbb'', [''x.txt'', ''d/y.txt''])] fs_empty)) =
     [(''bbb'', ''x.txt''), (''bbb'', ''d/y.txt'')] \<and>
   distinct (pick_order [(''bbb'', ''d/y.txt'')]
     (units_of (fst (start_all os_ok repo2 ''data'' [(''bbb'', [''x.txt'', ''d/y.txt''])] fs_empty)))) \<and>
   destination ''data'' (''bbb'', ''x.txt'') = ''data/bbb/x.txt'' \<and>
   destination ''data'' (''bbb'', ''d/y.txt'') = ''data/bbb/d/y.txt'' \<and>
   inj_on (destination ''data'') (set [(''bbb'', ''x.txt''), (''bbb'', ''d/y.txt'')])"
proof -
  let ?cf = "[(''bbb'', [''x.txt'', ''d/y.txt''])]"
  let ?st = "start_all os_ok repo2 ''data'' ?cf fs_empty"
  have names: "\<forall>k fl. show_name_only repo2 k = Inr fl \<longrightarrow>
      distinct fl \<and> (\<forall>f \<in> set fl. relative f)"
    by (auto simp: repo2_def relative_def split: if_splits)
  have shas: "\<forall>c \<in> set (iter_commits repo2 ''main''). wf_sha (hexsha c)"
    by (simp add: repo2_def wf_sha_def)
  have a: "collect_files repo2 (pick_order [''bbb''] (map hexsha (iter_commits repo2 ''main''))) [] [] =
     (?cf, [(''aaa'', ''Files could not be retrieved'')])"
    by (simp add: get_changed_files_def repo2_def)
  have b: "?st = (fst ?st, fst (snd ?st), snd (snd ?st))" by simp
  have u: "units_of (fst ?st) = [(''bbb'', ''x.txt''), (''bbb'', ''d/y.txt'')]"
    by (simp add: eval_defs os_ok_def repo2_def)
  have w: "wf_sha ''aaa'' \<and> wf_sha ''bbb'' \<and> relative ''x.txt'' \<and> relative ''d/y.txt''"
    by (simp add: wf_sha_def relative_def)
  have d: "destination ''data'' (''bbb'', ''x.txt'') = ''data/bbb/x.txt'' \<and>
           destination ''data'' (''bbb'', ''d/y.txt'') = ''data/bbb/d/y.txt''"
    by (simp add: destination_def join_def)
  show ?thesis
    using w a u d
      units_once_and_apart [OF names shas a b, of "[(''bbb'', ''d/y.txt'')]"]
    by simp
qed

section \<open>The event loop\<close>
























section \<open>Failures in one commit and the other commits\<close>






section \<open>A commit stops waiting at the first failure of a file\<close>

text \<open>
  C4 at a concrete run. One commit changed \<^verbatim>\<open>bad.txt\<close>, \<^verbatim>\<open>good.txt\<close> and \<^verbatim>\<open>worse.txt\<close>;
  fetching the first and the third fails, and the unit of \<^verbatim>\<open>bad.txt\<close> completes first.
  \<^verbatim>\<open>gather\<close> hands its \<^verbatim>\<open>BackupError\<close> to \<^verbatim>\<open>process_commit\<close>, which logs it and returns
  while two units are still running; the outer \<^verbatim>\<open>gather\<close> resolves and \<^verbatim>\<open>main\<close> exits. The
  run ends with one failure record although two units fail hard, and \<^verbatim>\<open>good.txt\<close>, which
  can be fetched and written, is not in the backup tree.
\<close>

theorem gather_returns_at_first_failure:
  "unit_ok os_ok repo3 c1 ''data/abc123'' ''good.txt'' \<and>
   \<not> unit_ok os_ok repo3 c1 ''data/abc123'' ''bad.txt'' \<and>
   \<not> unit_ok os_ok repo3 c1 ''data/abc123'' ''worse.txt'' \<and>
   main os_ok (utc_env 1700000000) (\<lambda>p. Inr repo3) ''.'' ''data'' None None [] [] fs_empty =
     (Failure, \<lparr>fs = \<lparr>dirs = {''data'', ''.'', ''data/abc123''}, files = Map.empty\<rparr>,
                failed_files = [(''abc123'', ''bad.txt'')]\<rparr>)"
  by (simp add: unit_ok_def eval_defs repo3_def world1_defs insert_commute)

section \<open>Running the pipeline again\<close>















end
